theory Spec2Isabelle
  imports Main
begin

section \<open>Values, errors and outcomes\<close>

text \<open>
  The values a producer can resolve with: \<open>undefined\<close> and the JSON values that
  \<open>res.json()\<close> yields. The parameters \<open>maxRetries\<close>, \<open>baseDelay\<close> and \<open>ttl\<close>, the
  attempt counter and the clock are integers, which a JavaScript number holds exactly
  below \<open>2 ^ 53\<close>.
\<close>

datatype jsval =
    JUndefined
  | JNull
  | JBool bool
  | JNum int
  | JStr string
  | JArr "jsval list"
  | JObj "(string \<times> jsval) list"

text \<open>JavaScript's ToBoolean, as used by \<open>cache && ...\<close>.\<close>

fun truthy :: "jsval \<Rightarrow> bool" where
  "truthy JUndefined = False"
| "truthy JNull = False"
| "truthy (JBool b) = b"
| "truthy (JNum n) = (n \<noteq> 0)"
| "truthy (JStr s) = (s \<noteq> [])"
| "truthy (JArr xs) = True"
| "truthy (JObj kvs) = True"

text \<open>
  A failure is an \<open>Error\<close> object carrying a message string, as created by
  \<open>new Error(...)\<close> in \<open>fetchData\<close> and in \<open>retryRequest\<close>.
\<close>

datatype js_error = Error (message: string)

text \<open>
  The settlement of an awaited call: \<open>Inl err\<close> is a rejection (a throw),
  \<open>Inr v\<close> a fulfilment (a return).
\<close>

type_synonym outcome = "js_error + jsval"

section \<open>The delay as a JavaScript number\<close>

text \<open>
  The delay \<open>baseDelay * 2 ** attempt\<close> is computed in IEEE double arithmetic and can
  leave the integers: \<open>2 ** attempt\<close> is \<open>Infinity\<close> from \<open>attempt = 1024\<close> on, and
  \<open>0 * Infinity\<close> is \<open>NaN\<close>.
\<close>

datatype number = Fin int | PosInf | NegInf | NaN

text \<open>
  \<open>baseDelay * 2 ** attempt\<close> for an integer \<open>baseDelay\<close> and a counter \<open>attempt \<ge> 0\<close>.
  Up to \<open>attempt = 1023\<close> the power of two is exact, and the product of a double with
  a power of two is exact unless it overflows, which gives an infinity.
\<close>

definition backoff_delay :: "int \<Rightarrow> int \<Rightarrow> number" where
  "backoff_delay baseDelay attempt =
     (if 1023 < attempt then
        (if baseDelay = 0 then NaN else if 0 < baseDelay then PosInf else NegInf)
      else
        let p = baseDelay * 2 ^ nat attempt in
        if 2 ^ 1024 \<le> p then PosInf else if p \<le> - (2 ^ 1024) then NegInf else Fin p)"

text \<open>
  The time a timer of the runtime waits for a requested delay: a delay below 1, above
  \<open>2 ^ 31 - 1\<close> or \<open>NaN\<close> is set to 1 millisecond.
\<close>

definition timer_ms :: "number \<Rightarrow> int" where
  "timer_ms delay =
     (case delay of
        Fin d \<Rightarrow> if 1 \<le> d \<and> d \<le> 2147483647 then d else 1
      | PosInf \<Rightarrow> 1
      | NegInf \<Rightarrow> 1
      | NaN \<Rightarrow> 1)"

section \<open>The observable world\<close>

text \<open>
  One invocation is run to completion before the next starts (the program awaits every
  call), so an asynchronous function is a function from the world before the call to
  its outcome and the world after it. The world holds the wall clock read by
  \<open>Date.now()\<close> and a log of what happened, in order: invocations of the underlying
  producer with their argument list and outcome, console lines, and awaited timeouts.
\<close>

datatype event =
    is_Call: Call (call_args: "jsval list") (call_outcome: outcome)
  | is_Warn: Warn string
  | is_Log: Log string
  | is_Timeout: Timeout (timeout_delay: number)

record world =
  clock :: int
  events :: "event list"

type_synonym 's afun = "jsval list \<Rightarrow> 's \<Rightarrow> outcome \<times> 's"

definition ncalls :: "world \<Rightarrow> nat" where
  "ncalls w = length (filter is_Call (events w))"

definition call_args_of :: "event list \<Rightarrow> jsval list list" where
  "call_args_of evs = map call_args (filter is_Call evs)"

definition delays_of :: "event list \<Rightarrow> number list" where
  "delays_of evs = map timeout_delay (filter is_Timeout evs)"

definition console_warn :: "string \<Rightarrow> world \<Rightarrow> world" where
  "console_warn s w = w\<lparr>events := events w @ [Warn s]\<rparr>"

definition console_log :: "string \<Rightarrow> world \<Rightarrow> world" where
  "console_log s w = w\<lparr>events := events w @ [Log s]\<rparr>"

text \<open>
  \<open>await new Promise((r) => setTimeout(r, delay))\<close>: the delay asked of the timer is
  logged, and the invocation is suspended until the timer fires; the clock then reads
  the time the timer waits later (a timer without jitter).
\<close>

definition setTimeout :: "number \<Rightarrow> world \<Rightarrow> world" where
  "setTimeout delay w = w\<lparr>clock := clock w + timer_ms delay, events := events w @ [Timeout delay]\<rparr>"

text \<open>
  The wrapped operation is an external collaborator (a network call in \<open>fetchData\<close>).
  It is a script that gives, for the index of the invocation and its argument list,
  the outcome and the time the call took; \<open>producer\<close> runs the script and logs the
  invocation. Every sequence of outcomes is the behaviour of some script.
\<close>

type_synonym script = "nat \<Rightarrow> jsval list \<Rightarrow> outcome \<times> int"

definition producer :: "script \<Rightarrow> world afun" where
  "producer sc args w =
     (case sc (ncalls w) args of
        (r, dt) \<Rightarrow> (r, w\<lparr>clock := clock w + dt, events := events w @ [Call args r]\<rparr>))"

section \<open>Number to string conversion\<close>

text \<open>
  The string that a template literal makes of a number. An integer below \<open>2 ^ 53\<close> is
  printed with all its decimal digits. A larger one is a double with a spacing of more
  than 1: it is printed with the fewest significant digits that still denote that
  double (the closest such digits), followed by zeros up to 21 digits and in exponent
  form beyond.
\<close>

definition digit_char :: "nat \<Rightarrow> char" where
  "digit_char n = char_of (48 + n)"

function digits :: "nat \<Rightarrow> string" where
  "digits n = (if n < 10 then [digit_char n] else digits (n div 10) @ [digit_char (n mod 10)])"
  by pat_completeness auto
termination
  by (relation "measure (\<lambda>n. n)") auto

declare digits.simps [simp del]

function bit_length :: "nat \<Rightarrow> nat" where
  "bit_length n = (if n = 0 then 0 else Suc (bit_length (n div 2)))"
  by pat_completeness auto
termination
  by (relation "measure (\<lambda>n. n)") auto

declare bit_length.simps [simp del]

text \<open>The double nearest to a natural number: 53 significant bits, ties to even.\<close>

definition to_double :: "nat \<Rightarrow> nat" where
  "to_double y =
     (let b = bit_length y in
      if b \<le> 53 then y
      else
        let sh = b - 53; q = y div 2 ^ sh; r = y mod 2 ^ sh; half = 2 ^ (sh - 1)
        in (if half < r \<or> (r = half \<and> odd q) then q + 1 else q) * 2 ^ sh)"

text \<open>
  The pairs \<open>(s, m)\<close> with \<open>s\<close> of exactly \<open>k\<close> digits such that \<open>s * 10 ^ m\<close> denotes the
  double \<open>x\<close>.
\<close>

definition digit_candidates :: "nat \<Rightarrow> nat \<Rightarrow> (nat \<times> nat) list" where
  "digit_candidates x k =
     (let d = length (digits x) in
      [(s, m). m \<leftarrow> [d - k, d - k + 1], s \<leftarrow> [x div 10 ^ m, x div 10 ^ m + 1],
               10 ^ (k - 1) \<le> s, s < 10 ^ k, to_double (s * 10 ^ m) = x])"

definition distance :: "nat \<Rightarrow> nat \<times> nat \<Rightarrow> nat" where
  "distance x c =
     (case c of (s, m) \<Rightarrow> if x \<le> s * 10 ^ m then s * 10 ^ m - x else x - s * 10 ^ m)"

fun closest :: "nat \<Rightarrow> (nat \<times> nat) list \<Rightarrow> nat \<times> nat" where
  "closest x [] = (x, 0)"
| "closest x [c] = c"
| "closest x (c # cs) =
     (let b = closest x cs in
      if distance x c < distance x b \<or> (distance x c = distance x b \<and> even (fst c))
      then c else b)"

fun shortest_digits :: "nat \<Rightarrow> nat list \<Rightarrow> nat \<times> nat" where
  "shortest_digits x [] = (x, 0)"
| "shortest_digits x (k # ks) =
     (case digit_candidates x k of [] \<Rightarrow> shortest_digits x ks | c # cs \<Rightarrow> closest x (c # cs))"

definition nat_str :: "nat \<Rightarrow> string" where
  "nat_str x =
     (if x < 9007199254740992 then digits x
      else if 2 ^ 1024 \<le> to_double x then ''Infinity''
      else
        case shortest_digits (to_double x) [1..<18] of
          (s, m) \<Rightarrow>
            let ds = digits s; n = length ds + m in
            if n \<le> 21 then ds @ replicate m (CHR ''0'')
            else (if length ds = 1 then ds else hd ds # CHR ''.'' # tl ds)
                   @ ''e+'' @ digits (n - 1))"

definition num_str :: "int \<Rightarrow> string" where
  "num_str n = (if n < 0 then CHR ''-'' # nat_str (nat (- n)) else nat_str (nat n))"

definition number_str :: "number \<Rightarrow> string" where
  "number_str x =
     (case x of
        Fin n \<Rightarrow> num_str n
      | PosInf \<Rightarrow> ''Infinity''
      | NegInf \<Rightarrow> ''-Infinity''
      | NaN \<Rightarrow> ''NaN'')"

section \<open>retryRequest\<close>

text \<open>
  \<open>`Failed after ${maxRetries} attempts: ${err.message}`\<close> and
  \<open>`Retry #${attempt + 1} in ${delay}ms...`\<close>.
\<close>

definition failed_msg :: "int \<Rightarrow> js_error \<Rightarrow> string" where
  "failed_msg maxRetries err =
     ''Failed after '' @ num_str maxRetries @ '' attempts: '' @ message err"

definition retry_msg :: "int \<Rightarrow> number \<Rightarrow> string" where
  "retry_msg attempt delay =
     ''Retry #'' @ num_str (attempt + 1) @ '' in '' @ number_str delay @ ''ms...''"

text \<open>
  The \<open>for\<close> loop of the returned closure, entered with the current value of
  \<open>attempt\<close>. Falling out of the loop returns \<open>undefined\<close>.
\<close>

function retry_loop ::
  "world afun \<Rightarrow> int \<Rightarrow> int \<Rightarrow> jsval list \<Rightarrow> int \<Rightarrow> world \<Rightarrow> outcome \<times> world" where
  "retry_loop fn maxRetries baseDelay args attempt w =
     (if attempt < maxRetries then
        (case fn args w of
           (Inr v, w') \<Rightarrow> (Inr v, w')
         | (Inl err, w') \<Rightarrow>
             if attempt = maxRetries - 1 then
               (Inl (Error (failed_msg maxRetries err)), w')
             else
               let delay = backoff_delay baseDelay attempt in
               retry_loop fn maxRetries baseDelay args (attempt + 1)
                 (setTimeout delay (console_warn (retry_msg attempt delay) w')))
      else (Inr JUndefined, w))"
  by pat_completeness auto
termination
  by (relation "measure (\<lambda>(fn, maxRetries, baseDelay, args, attempt, w). nat (maxRetries - attempt))")
     auto

declare retry_loop.simps [simp del]

definition retryRequest :: "world afun \<Rightarrow> int \<Rightarrow> int \<Rightarrow> world afun" where
  "retryRequest fn maxRetries baseDelay args w = retry_loop fn maxRetries baseDelay args 0 w"

section \<open>cacheRequest\<close>

text \<open>
  The two variables captured by the closure that \<open>cacheRequest\<close> returns. They are
  private to it: the wrapped function runs on the world alone.
\<close>

record cache_slot =
  cache :: jsval
  timestamp :: int

definition new_slot :: cache_slot where
  "new_slot = \<lparr>cache = JNull, timestamp = 0\<rparr>"

text \<open>The console line of a cache hit; its first character is U+26A1, here in UTF-8.\<close>

definition hit_msg :: string where
  "hit_msg = [char_of (226::nat), char_of (154::nat), char_of (161::nat)] @ '' Serving from cache...''"

definition cacheRequest :: "world afun \<Rightarrow> int \<Rightarrow> (cache_slot \<times> world) afun" where
  "cacheRequest fn ttl args sw =
     (case sw of (slot, w) \<Rightarrow>
        let now = clock w in
        if truthy (cache slot) \<and> now - timestamp slot < ttl then
          (Inr (cache slot), (slot, console_log hit_msg w))
        else
          (case fn args w of
             (Inr result, w') \<Rightarrow> (Inr result, (\<lparr>cache = result, timestamp = now\<rparr>, w'))
           | (Inl err, w') \<Rightarrow> (Inl err, (slot, w'))))"

section \<open>The composition\<close>

text \<open>
  \<open>const enhanced = cacheRequest(retryRequest(fetchData))\<close>, with the default
  parameters \<open>maxRetries = 3\<close>, \<open>baseDelay = 300\<close> and \<open>ttl = 5000\<close>; the base
  function is the producer run by the given script.
\<close>

definition enhanced :: "script \<Rightarrow> (cache_slot \<times> world) afun" where
  "enhanced sc = cacheRequest (retryRequest (producer sc) 3 300) 5000"

section \<open>What a run of failed attempts leaves in the log\<close>

text \<open>
  Attempt number \<open>j\<close> (counted from 0) of an invocation that started when the
  producer had been invoked \<open>c\<close> times: the invocation, then the retry notice and
  the timeout awaited for the delay \<open>baseDelay * 2 ** j\<close>.
\<close>

definition failed_attempt :: "script \<Rightarrow> int \<Rightarrow> jsval list \<Rightarrow> nat \<Rightarrow> nat \<Rightarrow> event list" where
  "failed_attempt sc baseDelay args c j =
     [Call args (fst (sc (c + j) args)),
      Warn (retry_msg (int j) (backoff_delay baseDelay (int j))),
      Timeout (backoff_delay baseDelay (int j))]"

definition failed_attempts :: "script \<Rightarrow> int \<Rightarrow> jsval list \<Rightarrow> nat \<Rightarrow> nat \<Rightarrow> event list" where
  "failed_attempts sc baseDelay args c k = concat (map (failed_attempt sc baseDelay args c) [0..<k])"

section \<open>Example producers\<close>

definition always_fails :: script where
  "always_fails i args = (Inl (Error ''HTTP error! Status: 500''), 120)"

definition always_returns :: "jsval \<Rightarrow> script" where
  "always_returns v i args = (Inr v, 80)"

definition fails_twice :: script where
  "fails_twice i args =
     (if i < 2 then (Inl (Error ''HTTP error! Status: 503''), 120)
      else (Inr (JArr [JObj [(''id'', JNum 1)]]), 80))"

text \<open>A producer whose first result is the number 0 and whose later results are 1.\<close>

definition zero_then_one :: script where
  "zero_then_one i args = (if i = 0 then (Inr (JNum 0), 80) else (Inr (JNum 1), 80))"

definition w0 :: world where
  "w0 = \<lparr>clock = 1700000000000, events = []\<rparr>"

text \<open>A slot filled one second before \<open>w0\<close>, and one filled ten seconds before it.\<close>

definition fresh_slot :: cache_slot where
  "fresh_slot = \<lparr>cache = JStr ''old'', timestamp = 1699999999000\<rparr>"

definition stale_slot :: cache_slot where
  "stale_slot = \<lparr>cache = JStr ''old'', timestamp = 1699999990000\<rparr>"

section \<open>Basic facts about the log and the loop\<close>

lemma ncalls_simps [simp]:
  "ncalls (console_warn s w) = ncalls w"
  "ncalls (console_log s w) = ncalls w"
  "ncalls (setTimeout d w) = ncalls w"
  by (simp_all add: ncalls_def console_warn_def console_log_def setTimeout_def)

lemma producer_fst: "fst (producer sc args w) = fst (sc (ncalls w) args)"
  by (simp add: producer_def split: prod.splits)

lemma producer_events:
  "events (snd (producer sc args w)) = events w @ [Call args (fst (sc (ncalls w) args))]"
  by (simp add: producer_def split: prod.splits)

lemma producer_eqD:
  "producer sc args w = (r, w') \<Longrightarrow>
   r = fst (sc (ncalls w) args) \<and> events w' = events w @ [Call args r]"
  by (auto simp: producer_def split: prod.splits)


lemma retry_loop_exit:
  "\<not> attempt < maxRetries \<Longrightarrow> retry_loop fn maxRetries baseDelay args attempt w = (Inr JUndefined, w)"
  by (simp add: retry_loop.simps)

lemma retry_loop_success:
  "attempt < maxRetries \<Longrightarrow> fn args w = (Inr v, w') \<Longrightarrow>
   retry_loop fn maxRetries baseDelay args attempt w = (Inr v, w')"
  by (simp add: retry_loop.simps)

lemma retry_loop_exhausted:
  "attempt = maxRetries - 1 \<Longrightarrow> fn args w = (Inl err, w') \<Longrightarrow>
   retry_loop fn maxRetries baseDelay args attempt w = (Inl (Error (failed_msg maxRetries err)), w')"
  by (subst retry_loop.simps) simp

lemma retry_loop_again:
  "attempt < maxRetries - 1 \<Longrightarrow> fn args w = (Inl err, w') \<Longrightarrow>
   retry_loop fn maxRetries baseDelay args attempt w =
   retry_loop fn maxRetries baseDelay args (attempt + 1)
     (setTimeout (backoff_delay baseDelay attempt)
        (console_warn (retry_msg attempt (backoff_delay baseDelay attempt)) w'))"
  by (subst retry_loop.simps) (simp add: Let_def)

lemma failed_attempts_0 [simp]: "failed_attempts sc d args c 0 = []"
  by (simp add: failed_attempts_def)

lemma failed_attempts_Suc:
  "failed_attempts sc d args c (Suc k) = failed_attempts sc d args c k @ failed_attempt sc d args c k"
  by (simp add: failed_attempts_def)

lemma filter_Call_failed_attempts:
  "length (filter is_Call (failed_attempts sc d args c k)) = k"
  by (induction k) (simp_all add: failed_attempts_Suc failed_attempt_def)

lemma call_args_failed_attempts:
  "call_args_of (failed_attempts sc d args c k) = replicate k args"
  by (induction k)
     (simp_all add: failed_attempts_Suc failed_attempt_def call_args_of_def replicate_append_same)

lemma delays_failed_attempts:
  "delays_of (failed_attempts sc d args c k) = map (\<lambda>j. backoff_delay d (int j)) [0..<k]"
  by (induction k) (simp_all add: failed_attempts_Suc failed_attempt_def delays_of_def)

text \<open>k failed attempts in a row, each with another attempt remaining.\<close>

lemma retry_loop_failures:
  assumes "int k < n" and "\<forall>m<k. isl (fst (sc (ncalls w + m) args))"
  shows "\<exists>wk. retry_loop (producer sc) n d args 0 w = retry_loop (producer sc) n d args (int k) wk
            \<and> events wk = events w @ failed_attempts sc d args (ncalls w) k"
  using assms
proof (induction k)
  case 0
  show ?case by (intro exI [of _ w]) simp
next
  case (Suc k)
  from Suc.prems have kn: "int k < n - 1" and "int k < n" by simp_all
  with Suc obtain wk where
    run: "retry_loop (producer sc) n d args 0 w = retry_loop (producer sc) n d args (int k) wk"
    and ev: "events wk = events w @ failed_attempts sc d args (ncalls w) k"
    by auto
  have nc: "ncalls wk = ncalls w + k"
    by (simp add: ncalls_def ev filter_Call_failed_attempts)
  from Suc.prems have "isl (fst (sc (ncalls w + k) args))" by simp
  then obtain err where err: "fst (sc (ncalls w + k) args) = Inl err"
    by (auto simp: isl_def)
  obtain r w' where p: "producer sc args wk = (r, w')" by (cases "producer sc args wk")
  from producer_eqD [OF p] nc err have r: "r = Inl err"
    and ev': "events w' = events wk @ [Call args (Inl err)]" by simp_all
  let ?w = "setTimeout (backoff_delay d (int k))
              (console_warn (retry_msg (int k) (backoff_delay d (int k))) w')"
  have "retry_loop (producer sc) n d args (int k) wk = retry_loop (producer sc) n d args (int k + 1) ?w"
    using retry_loop_again [OF kn] p r by simp
  moreover have "events ?w = events w @ failed_attempts sc d args (ncalls w) (Suc k)"
    by (simp add: setTimeout_def console_warn_def ev' ev failed_attempts_Suc failed_attempt_def err)
  ultimately show ?case using run
    by (intro exI [of _ ?w]) (simp add: add.commute)
qed

text \<open>The last attempt of an invocation, after k failed ones.\<close>

lemma retry_loop_finish:
  assumes "int k < n" and "\<forall>m<k. isl (fst (sc (ncalls w + m) args))"
    and "isl (fst (sc (ncalls w + k) args)) \<longrightarrow> int k = n - 1"
  shows "\<exists>w'. retry_loop (producer sc) n d args 0 w =
             (case fst (sc (ncalls w + k) args) of
                Inl err \<Rightarrow> Inl (Error (failed_msg n err)) | Inr v \<Rightarrow> Inr v, w')
            \<and> events w' = events w @ failed_attempts sc d args (ncalls w) k
                            @ [Call args (fst (sc (ncalls w + k) args))]"
proof -
  from retry_loop_failures [of k n sc w args d] assms(1,2) obtain wk where
    run: "retry_loop (producer sc) n d args 0 w = retry_loop (producer sc) n d args (int k) wk"
    and ev: "events wk = events w @ failed_attempts sc d args (ncalls w) k"
    by blast
  have nc: "ncalls wk = ncalls w + k"
    by (simp add: ncalls_def ev filter_Call_failed_attempts)
  obtain r w' where p: "producer sc args wk = (r, w')" by (cases "producer sc args wk")
  from producer_eqD [OF p] nc have r: "r = fst (sc (ncalls w + k) args)"
    and ev': "events w' = events wk @ [Call args r]" by simp_all
  show ?thesis
  proof (cases "fst (sc (ncalls w + k) args)")
    case (Inl err)
    with assms(3) have "int k = n - 1" by simp
    with p r Inl have "retry_loop (producer sc) n d args (int k) wk = (Inl (Error (failed_msg n err)), w')"
      by (intro retry_loop_exhausted) simp_all
    with run ev ev' r Inl show ?thesis by (intro exI [of _ w']) simp
  next
    case (Inr v)
    with p r assms(1) have "retry_loop (producer sc) n d args (int k) wk = (Inr v, w')"
      by (intro retry_loop_success) simp_all
    with run ev ev' r Inr show ?thesis by (intro exI [of _ w']) simp
  qed
qed

text \<open>Every invocation with at least one attempt ends that way, for some k.\<close>

lemma retry_loop_run:
  assumes "1 \<le> n"
  shows "\<exists>k. int k < n \<and> (\<forall>m<k. isl (fst (sc (ncalls w + m) args)))
            \<and> (isl (fst (sc (ncalls w + k) args)) \<longrightarrow> int k = n - 1)"
proof (cases "\<exists>m. int m < n \<and> \<not> isl (fst (sc (ncalls w + m) args))")
  case True
  define k where "k = (LEAST m. int m < n \<and> \<not> isl (fst (sc (ncalls w + m) args)))"
  from True have "int k < n \<and> \<not> isl (fst (sc (ncalls w + k) args))"
    unfolding k_def by (rule LeastI_ex)
  moreover have "isl (fst (sc (ncalls w + m) args))" if "m < k" for m
  proof (rule ccontr)
    assume "\<not> isl (fst (sc (ncalls w + m) args))"
    moreover from that \<open>int k < n \<and> \<not> isl (fst (sc (ncalls w + k) args))\<close> have "int m < n" by simp
    ultimately have "k \<le> m" unfolding k_def by (intro Least_le) simp
    with that show False by simp
  qed
  ultimately show ?thesis by blast
next
  case False
  with assms show ?thesis by (intro exI [of _ "nat (n - 1)"]) auto
qed



text \<open>Every invocation with at least one attempt: its outcome and its log.\<close>

lemma retry_run_shape:
  assumes "1 \<le> n"
  shows "\<exists>k w'. int k < n \<and> (\<forall>m<k. isl (fst (sc (ncalls w + m) args)))
          \<and> (isl (fst (sc (ncalls w + k) args)) \<longrightarrow> int k = n - 1)
          \<and> retryRequest (producer sc) n d args w =
              (case fst (sc (ncalls w + k) args) of
                 Inl err \<Rightarrow> Inl (Error (failed_msg n err)) | Inr v \<Rightarrow> Inr v, w')
          \<and> events w' = events w @ failed_attempts sc d args (ncalls w) k
                          @ [Call args (fst (sc (ncalls w + k) args))]"
proof -
  from retry_loop_run [OF assms, of sc w args] obtain k where
    k: "int k < n" "\<forall>m<k. isl (fst (sc (ncalls w + m) args))"
       "isl (fst (sc (ncalls w + k) args)) \<longrightarrow> int k = n - 1"
    by blast
  from retry_loop_finish [of k n sc w args d] k obtain w' where
    "retry_loop (producer sc) n d args 0 w =
       (case fst (sc (ncalls w + k) args) of
          Inl err \<Rightarrow> Inl (Error (failed_msg n err)) | Inr v \<Rightarrow> Inr v, w')"
    "events w' = events w @ failed_attempts sc d args (ncalls w) k
                   @ [Call args (fst (sc (ncalls w + k) args))]"
    by blast
  with k show ?thesis unfolding retryRequest_def by blast
qed

text \<open>The two branches of the cache wrapper, and one concrete exhausted run.\<close>

lemma cacheRequest_hit:
  "truthy (cache slot) \<Longrightarrow> clock w - timestamp slot < ttl \<Longrightarrow>
   cacheRequest fn ttl args (slot, w) = (Inr (cache slot), (slot, console_log hit_msg w))"
  by (simp add: cacheRequest_def)

lemma cacheRequest_miss:
  "\<not> (truthy (cache slot) \<and> clock w - timestamp slot < ttl) \<Longrightarrow>
   cacheRequest fn ttl args (slot, w) =
     (case fn args w of
        (Inr result, w') \<Rightarrow> (Inr result, (\<lparr>cache = result, timestamp = clock w\<rparr>, w'))
      | (Inl err, w') \<Rightarrow> (Inl err, (slot, w')))"
  by (auto simp: cacheRequest_def Let_def)

text \<open>
  The stored timestamp is always an earlier reading of the clock: it is either kept or
  set to the reading taken at the start of the call.
\<close>

lemma timestamp_stays_past:
  assumes "timestamp slot \<le> clock w"
    and "cacheRequest fn ttl args (slot, w) = (r, (slot', w'))"
  shows "timestamp slot' \<le> clock w"
proof (cases "truthy (cache slot) \<and> clock w - timestamp slot < ttl")
  case True
  with assms show ?thesis by (simp add: cacheRequest_hit)
next
  case False
  from assms(2) have "slot' = slot \<or> slot' = \<lparr>cache = projr r, timestamp = clock w\<rparr>"
    unfolding cacheRequest_miss [OF False] by (auto split: prod.splits sum.splits)
  with assms(1) show ?thesis by auto
qed

text \<open>Evaluating the delay and the strings of concrete runs.\<close>

lemma backoff_delay_Fin:
  assumes "attempt \<le> 1023" and "\<bar>baseDelay * 2 ^ nat attempt\<bar> < 2 ^ 1024"
  shows "backoff_delay baseDelay attempt = Fin (baseDelay * 2 ^ nat attempt)"
  using assms by (auto simp: backoff_delay_def Let_def)

lemma digit_chars:
  "digit_char 0 = CHR ''0''" "digit_char 1 = CHR ''1''" "digit_char 2 = CHR ''2''"
  "digit_char 3 = CHR ''3''" "digit_char 4 = CHR ''4''" "digit_char 5 = CHR ''5''"
  "digit_char 6 = CHR ''6''" "digit_char 7 = CHR ''7''" "digit_char 8 = CHR ''8''"
  "digit_char 9 = CHR ''9''" "digit_char (Suc 0) = CHR ''1''"
  by code_simp+

lemmas run_simps =
  retryRequest_def retry_loop.simps producer_def w0_def ncalls_def
  setTimeout_def console_warn_def timer_ms_def backoff_delay_Fin failed_msg_def retry_msg_def
  number_str_def num_str_def nat_str_def digits.simps digit_chars

lemma exhausted_run:
  "retryRequest (producer always_fails) 3 300 [] w0 =
     (Inl (Error ''Failed after 3 attempts: HTTP error! Status: 500''),
      \<lparr>clock = 1700000001260,
       events = [Call [] (Inl (Error ''HTTP error! Status: 500'')),
                 Warn ''Retry #1 in 300ms...'', Timeout (Fin 300),
                 Call [] (Inl (Error ''HTTP error! Status: 500'')),
                 Warn ''Retry #2 in 600ms...'', Timeout (Fin 600),
                 Call [] (Inl (Error ''HTTP error! Status: 500''))]\<rparr>)"
  by (simp add: run_simps always_fails_def)

section \<open>Properties of retryRequest\<close>

text \<open>
  Claim C2. For every \<open>maxRetries = n \<ge> 1\<close>, a producer that fails on every
  attempt is invoked exactly \<open>n\<close> times, and the invocation ends with an error whose
  message is \<open>Failed after n attempts:\<close> followed by the message of the last failure.
  The log of the invocation is \<open>n - 1\<close> failed attempts, each with its backoff, and the
  last failing call; with \<open>n = 1\<close> that is the single call and no backoff at all.
\<close>

theorem always_failing_exhausts:
  assumes "1 \<le> n" and "\<forall>i. isl (fst (sc i args))"
  shows "\<exists>err w'. retryRequest (producer sc) n baseDelay args w =
                    (Inl (Error (''Failed after '' @ num_str n @ '' attempts: '' @ message err)), w')
           \<and> fst (sc (ncalls w + nat n - 1) args) = Inl err
           \<and> ncalls w' = ncalls w + nat n
           \<and> events w' = events w @ failed_attempts sc baseDelay args (ncalls w) (nat n - 1)
                           @ [Call args (Inl err)]"
proof -
  let ?k = "nat n - 1"
  from assms(1) have k: "int ?k < n" "int ?k = n - 1" by simp_all
  from assms(2) obtain err where err: "fst (sc (ncalls w + ?k) args) = Inl err"
    by (auto simp: isl_def)
  from retry_loop_finish [of ?k n sc w args baseDelay] k assms(2) obtain w' where
    run: "retry_loop (producer sc) n baseDelay args 0 w =
            (case fst (sc (ncalls w + ?k) args) of
               Inl err \<Rightarrow> Inl (Error (failed_msg n err)) | Inr v \<Rightarrow> Inr v, w')"
    and ev: "events w' = events w @ failed_attempts sc baseDelay args (ncalls w) ?k
                            @ [Call args (fst (sc (ncalls w + ?k) args))]"
    by blast
  from ev have "ncalls w' = ncalls w + (?k + 1)"
    by (simp add: ncalls_def filter_Call_failed_attempts)
  with assms(1) have nc: "ncalls w' = ncalls w + nat n" by simp
  from assms(1) have idx: "ncalls w + nat n - 1 = ncalls w + ?k" by simp
  show ?thesis
    using run ev err nc idx
    by (intro exI [of _ err] exI [of _ w']) (simp add: retryRequest_def failed_msg_def)
qed

theorem always_failing_exhausts_witness:
  "(1::int) \<le> 3 \<and> (\<forall>i. isl (fst (always_fails i []))) \<and>
   (\<exists>err w'. retryRequest (producer always_fails) 3 300 [] w0 =
                (Inl (Error (''Failed after '' @ num_str 3 @ '' attempts: '' @ message err)), w')
      \<and> fst (always_fails (ncalls w0 + nat 3 - 1) []) = Inl err
      \<and> ncalls w' = ncalls w0 + nat 3
      \<and> events w' = events w0 @ failed_attempts always_fails 300 [] (ncalls w0) (nat 3 - 1)
                      @ [Call [] (Inl err)])"
proof -
  have h1: "(1::int) \<le> 3" by simp
  have h2: "\<forall>i. isl (fst (always_fails i []))" by (simp add: always_fails_def)
  from always_failing_exhausts [where n = 3 and sc = always_fails and args = "[]" and baseDelay = 300 and w = w0] h1 h2
  show ?thesis by blast
qed

text \<open>
  Claim C6. A producer that fails on its attempts \<open>1, ..., k - 1\<close> and returns \<open>v\<close> on
  attempt \<open>k \<le> maxRetries\<close> is invoked exactly \<open>k\<close> times; the invocation returns
  \<open>v\<close>, and the successful call is the last entry of the log.
\<close>

theorem succeeds_on_attempt_k:
  assumes "1 \<le> k" and "int k \<le> n"
    and "\<forall>m<k - 1. isl (fst (sc (ncalls w + m) args))"
    and "fst (sc (ncalls w + k - 1) args) = Inr v"
  shows "\<exists>w'. retryRequest (producer sc) n baseDelay args w = (Inr v, w')
           \<and> ncalls w' = ncalls w + k
           \<and> events w' = events w @ failed_attempts sc baseDelay args (ncalls w) (k - 1)
                           @ [Call args (Inr v)]"
proof -
  from assms(1,2) have k: "int (k - 1) < n" by simp
  from assms(1,4) have ok: "fst (sc (ncalls w + (k - 1)) args) = Inr v" by simp
  from retry_loop_finish [of "k - 1" n sc w args baseDelay] k assms(3) ok obtain w' where
    run: "retry_loop (producer sc) n baseDelay args 0 w = (Inr v, w')"
    and ev: "events w' = events w @ failed_attempts sc baseDelay args (ncalls w) (k - 1)
                            @ [Call args (Inr v)]"
    by auto
  from ev have "ncalls w' = ncalls w + ((k - 1) + 1)"
    by (simp add: ncalls_def filter_Call_failed_attempts)
  with assms(1) have "ncalls w' = ncalls w + k" by simp
  with run ev show ?thesis by (intro exI [of _ w']) (simp add: retryRequest_def)
qed

theorem succeeds_on_attempt_k_witness:
  "(1::nat) \<le> 3 \<and> int 3 \<le> (3::int)
   \<and> isl (fst (fails_twice (ncalls w0 + 0) [])) \<and> isl (fst (fails_twice (ncalls w0 + 1) []))
   \<and> fst (fails_twice (ncalls w0 + 3 - 1) []) = Inr (JArr [JObj [(''id'', JNum 1)]])
   \<and> (\<exists>w'. retryRequest (producer fails_twice) 3 300 [] w0 = (Inr (JArr [JObj [(''id'', JNum 1)]]), w')
          \<and> ncalls w' = ncalls w0 + 3
          \<and> events w' = events w0 @ failed_attempts fails_twice 300 [] (ncalls w0) (3 - 1)
                          @ [Call [] (Inr (JArr [JObj [(''id'', JNum 1)]]))])"
proof -
  have h1: "(1::nat) \<le> 3" and h2: "int 3 \<le> (3::int)" by simp_all
  have h3: "\<forall>m<3 - 1. isl (fst (fails_twice (ncalls w0 + m) []))"
    by (simp add: fails_twice_def ncalls_def w0_def)
  have h4: "fst (fails_twice (ncalls w0 + 3 - 1) []) = Inr (JArr [JObj [(''id'', JNum 1)]])"
    by (simp add: fails_twice_def ncalls_def w0_def)
  have h5: "isl (fst (fails_twice (ncalls w0 + 0) [])) \<and> isl (fst (fails_twice (ncalls w0 + 1) []))"
    by (simp add: fails_twice_def ncalls_def w0_def)
  from succeeds_on_attempt_k [where k = 3 and n = 3 and sc = fails_twice and w = w0
      and args = "[]" and v = "JArr [JObj [(''id'', JNum 1)]]" and baseDelay = 300] h1 h2 h3 h4 h5
  show ?thesis by blast
qed




text \<open>
  Claim C8. Every invocation with \<open>maxRetries = n \<ge> 1\<close> ends: the loop is a total
  function, and it makes the attempts \<open>0, 1, ..., k\<close> for some \<open>k \<le> n - 1\<close>, one call of
  the producer each. All attempts before \<open>k\<close> failed (no attempt follows a success); the
  call of attempt \<open>k\<close> is the last entry of the log; if it returned, the invocation returns
  its value, and if it failed then \<open>k = n - 1\<close> and the invocation raises the final error.
  (The producer itself is taken to settle every time it is called.)
\<close>

theorem retry_terminates:
  assumes "1 \<le> n"
  shows "\<exists>k w'. int k < n
          \<and> (\<forall>m<k. isl (fst (sc (ncalls w + m) args)))
          \<and> (isl (fst (sc (ncalls w + k) args)) \<longrightarrow> int k = n - 1)
          \<and> retryRequest (producer sc) n baseDelay args w =
              (case fst (sc (ncalls w + k) args) of
                 Inl err \<Rightarrow> Inl (Error (failed_msg n err)) | Inr v \<Rightarrow> Inr v, w')
          \<and> events w' = events w @ failed_attempts sc baseDelay args (ncalls w) k
                          @ [Call args (fst (sc (ncalls w + k) args))]
          \<and> ncalls w' = ncalls w + k + 1"
proof -
  from retry_run_shape [OF assms, of sc w args baseDelay] obtain k w' where
    k: "int k < n" "\<forall>m<k. isl (fst (sc (ncalls w + m) args))"
       "isl (fst (sc (ncalls w + k) args)) \<longrightarrow> int k = n - 1"
    and run: "retryRequest (producer sc) n baseDelay args w =
              (case fst (sc (ncalls w + k) args) of
                 Inl err \<Rightarrow> Inl (Error (failed_msg n err)) | Inr v \<Rightarrow> Inr v, w')"
    and ev: "events w' = events w @ failed_attempts sc baseDelay args (ncalls w) k
                          @ [Call args (fst (sc (ncalls w + k) args))]"
    by blast
  from ev have "ncalls w' = ncalls w + k + 1"
    by (simp add: ncalls_def filter_Call_failed_attempts)
  with k run ev show ?thesis by blast
qed

theorem retry_terminates_witness:
  "(1::int) \<le> 3 \<and>
   (\<exists>k w'. int k < 3
          \<and> (\<forall>m<k. isl (fst (always_fails (ncalls w0 + m) [])))
          \<and> (isl (fst (always_fails (ncalls w0 + k) [])) \<longrightarrow> int k = 3 - 1)
          \<and> retryRequest (producer always_fails) 3 300 [] w0 =
              (case fst (always_fails (ncalls w0 + k) []) of
                 Inl err \<Rightarrow> Inl (Error (failed_msg 3 err)) | Inr v \<Rightarrow> Inr v, w')
          \<and> events w' = events w0 @ failed_attempts always_fails 300 [] (ncalls w0) k
                          @ [Call [] (fst (always_fails (ncalls w0 + k) []))]
          \<and> ncalls w' = ncalls w0 + k + 1)"
proof -
  have h: "(1::int) \<le> 3" by simp
  from retry_terminates [where n = 3 and sc = always_fails and w = w0 and args = "[]" and baseDelay = 300] h
  show ?thesis by blast
qed

text \<open>
  Claim C9. With \<open>maxRetries \<le> 0\<close> the loop body never runs: the wrapped function is not
  called (the world, and so the log of calls, is unchanged, whatever the wrapped function
  is) and the invocation returns \<open>undefined\<close> without raising.
\<close>

theorem no_attempts_returns_undefined:
  assumes "maxRetries \<le> 0"
  shows "retryRequest fn maxRetries baseDelay args w = (Inr JUndefined, w)"
  using assms by (simp add: retryRequest_def retry_loop_exit)

theorem no_attempts_returns_undefined_witness:
  "(0::int) \<le> 0 \<and> retryRequest (producer always_fails) 0 300 [] w0 = (Inr JUndefined, w0)"
proof -
  have h: "(0::int) \<le> 0" by simp
  from no_attempts_returns_undefined [OF h, of "producer always_fails" 300 "[]" w0] h
  show ?thesis by simp
qed

section \<open>Properties of cacheRequest and of the composition\<close>

text \<open>
  A call that missed and returned a truthy value \<open>v\<close> at clock reading \<open>clock w\<close> fills
  the slot; any later call whose clock reading is less than \<open>ttl\<close> after that one returns
  \<open>v\<close> from the slot and leaves the number of producer calls as it was.
\<close>

lemma cached_value_served:
  assumes "\<not> (truthy (cache slot) \<and> clock w - timestamp slot < ttl)"
    and "cacheRequest (producer sc) ttl args (slot, w) = (Inr v, (slot', w'))"
    and "truthy v"
    and "clock w2 - clock w < ttl"
  shows "cacheRequest (producer sc) ttl args2 (slot', w2) = (Inr v, (slot', console_log hit_msg w2))
         \<and> ncalls (console_log hit_msg w2) = ncalls w2"
proof -
  from assms(2) have "slot' = \<lparr>cache = v, timestamp = clock w\<rparr>"
    unfolding cacheRequest_miss [OF assms(1)] by (auto split: prod.splits sum.splits)
  with assms(3,4) show ?thesis by (simp add: cacheRequest_hit)
qed

text \<open>
  Claim C1. The claim is stated for every result value, but the freshness test is
  \<open>cache && now - timestamp < ttl\<close>, and a stored value that is falsy fails it. Here the
  producer returns the number 0 on the first call: the slot then holds 0, the second call
  comes 80 milliseconds after the stored timestamp with \<open>ttl = 5000\<close>, and yet it invokes
  the producer a second time and returns the new result 1 instead of the stored 0.
\<close>

theorem falsy_result_not_served_from_cache:
  "(let f = cacheRequest (producer zero_then_one) 5000;
        (r1, s1) = f [] (new_slot, w0);
        (r2, s2) = f [] s1
    in r1 = Inr (JNum 0) \<and> cache (fst s1) = JNum 0 \<and> ncalls (snd s1) = 1
       \<and> clock (snd s1) - timestamp (fst s1) = 80
       \<and> r2 = Inr (JNum 1) \<and> ncalls (snd s2) = 2)"
  by code_simp

text \<open>
  Claim C3. For \<open>enhanced = cacheRequest(retryRequest(base))\<close> the decision between hit
  and miss is taken on the slot and the clock as they are when the invocation starts.
  On a hit the invocation returns the stored value and only adds the console line: no
  call of the base producer, no timeout, and the clock is where it was. On a miss the
  retry wrapper starts in that same world, so nothing of it ran before the check.
\<close>

theorem cache_checked_before_retry:
  "(truthy (cache slot) \<and> clock w - timestamp slot < 5000 \<longrightarrow>
      enhanced sc args (slot, w) = (Inr (cache slot), (slot, console_log hit_msg w))
      \<and> events (console_log hit_msg w) = events w @ [Log hit_msg]
      \<and> ncalls (console_log hit_msg w) = ncalls w
      \<and> delays_of (events (console_log hit_msg w)) = delays_of (events w)
      \<and> clock (console_log hit_msg w) = clock w)
   \<and> (\<not> (truthy (cache slot) \<and> clock w - timestamp slot < 5000) \<longrightarrow>
      fst (enhanced sc args (slot, w)) = fst (retryRequest (producer sc) 3 300 args w)
      \<and> snd (snd (enhanced sc args (slot, w))) = snd (retryRequest (producer sc) 3 300 args w))"
proof (intro conjI impI)
  assume "truthy (cache slot) \<and> clock w - timestamp slot < 5000"
  then show "enhanced sc args (slot, w) = (Inr (cache slot), (slot, console_log hit_msg w))"
    by (simp add: enhanced_def cacheRequest_hit)
next
  show "events (console_log hit_msg w) = events w @ [Log hit_msg]"
    by (simp add: console_log_def)
next
  show "ncalls (console_log hit_msg w) = ncalls w" by simp
next
  show "delays_of (events (console_log hit_msg w)) = delays_of (events w)"
    by (simp add: console_log_def delays_of_def)
next
  show "clock (console_log hit_msg w) = clock w" by (simp add: console_log_def)
next
  assume miss: "\<not> (truthy (cache slot) \<and> clock w - timestamp slot < 5000)"
  show "fst (enhanced sc args (slot, w)) = fst (retryRequest (producer sc) 3 300 args w)"
    unfolding enhanced_def cacheRequest_miss [OF miss]
    by (simp split: prod.splits sum.splits)
  show "snd (snd (enhanced sc args (slot, w))) = snd (retryRequest (producer sc) 3 300 args w)"
    unfolding enhanced_def cacheRequest_miss [OF miss]
    by (simp split: prod.splits sum.splits)
qed


theorem cache_checked_before_retry_witness:
  "(truthy (cache fresh_slot) \<and> clock w0 - timestamp fresh_slot < 5000)
   \<and> enhanced always_fails [] (fresh_slot, w0) = (Inr (JStr ''old''), (fresh_slot, console_log hit_msg w0))
   \<and> ncalls (console_log hit_msg w0) = ncalls w0
   \<and> delays_of (events (console_log hit_msg w0)) = delays_of (events w0)
   \<and> \<not> (truthy (cache stale_slot) \<and> clock w0 - timestamp stale_slot < 5000)
   \<and> fst (enhanced always_fails [] (stale_slot, w0)) = fst (retryRequest (producer always_fails) 3 300 [] w0)
   \<and> snd (snd (enhanced always_fails [] (stale_slot, w0))) = snd (retryRequest (producer always_fails) 3 300 [] w0)"
proof -
  have h1: "truthy (cache fresh_slot) \<and> clock w0 - timestamp fresh_slot < 5000"
    by (simp add: fresh_slot_def w0_def)
  have h2: "\<not> (truthy (cache stale_slot) \<and> clock w0 - timestamp stale_slot < 5000)"
    by (simp add: stale_slot_def w0_def)
  have c: "cache fresh_slot = JStr ''old''" by (simp add: fresh_slot_def)
  from cache_checked_before_retry [of fresh_slot w0 always_fails "[]"]
       cache_checked_before_retry [of stale_slot w0 always_fails "[]"] h1 h2 c
  show ?thesis by (simp add: delays_of_def)
qed

text \<open>
  Claim C4. When the entry is not served and the wrapped function fails, the cache
  wrapper fails with the very same error (also when that error is the final error of
  the retry wrapper), and the slot is the one from before the call.
\<close>

theorem failed_refresh_keeps_slot:
  assumes "\<not> (truthy (cache slot) \<and> clock w - timestamp slot < ttl)"
    and "fn args w = (Inl err, w')"
  shows "cacheRequest fn ttl args (slot, w) = (Inl err, (slot, w'))"
  using assms by (simp add: cacheRequest_miss)

theorem failed_refresh_keeps_slot_witness:
  "\<not> (truthy (cache stale_slot) \<and> clock w0 - timestamp stale_slot < 5000)
   \<and> cacheRequest (retryRequest (producer always_fails) 3 300) 5000 [] (stale_slot, w0) =
       (Inl (Error ''Failed after 3 attempts: HTTP error! Status: 500''),
        (stale_slot, snd (retryRequest (producer always_fails) 3 300 [] w0)))"
proof -
  have h1: "\<not> (truthy (cache stale_slot) \<and> clock w0 - timestamp stale_slot < 5000)"
    by (simp add: stale_slot_def w0_def)
  have h2: "retryRequest (producer always_fails) 3 300 [] w0 =
      (Inl (Error ''Failed after 3 attempts: HTTP error! Status: 500''),
       snd (retryRequest (producer always_fails) 3 300 [] w0))"
    by (simp add: exhausted_run)
  from failed_refresh_keeps_slot [where slot = stale_slot and w = w0 and ttl = 5000
      and fn = "retryRequest (producer always_fails) 3 300" and args = "[]"
      and err = "Error ''Failed after 3 attempts: HTTP error! Status: 500''"
      and w' = "snd (retryRequest (producer always_fails) 3 300 [] w0)"] h1 h2
  show ?thesis by simp
qed

text \<open>
  Claim C7. When the stored value is absent (falsy, as the initial \<open>null\<close>) or the age
  \<open>now - timestamp\<close> is at least \<open>ttl\<close>, the wrapped producer is invoked exactly once;
  if it returns, the slot becomes that value with the clock reading taken at the start
  of the invocation, and if it fails the slot is kept. With \<open>ttl = 0\<close> this is every call,
  the stored timestamp being a past reading of a clock that does not run backwards.
\<close>

theorem stale_or_absent_refreshes:
  assumes "\<not> truthy (cache slot) \<or> ttl \<le> clock w - timestamp slot
           \<or> (ttl = 0 \<and> timestamp slot \<le> clock w)"
  shows "\<exists>r w'. producer sc args w = (r, w')
          \<and> events w' = events w @ [Call args r]
          \<and> ncalls w' = ncalls w + 1
          \<and> cacheRequest (producer sc) ttl args (slot, w) =
              (r, (case r of Inl err \<Rightarrow> slot | Inr v \<Rightarrow> \<lparr>cache = v, timestamp = clock w\<rparr>), w')"
proof -
  from assms have miss: "\<not> (truthy (cache slot) \<and> clock w - timestamp slot < ttl)" by auto
  obtain r w' where p: "producer sc args w = (r, w')" by (cases "producer sc args w")
  from producer_eqD [OF p] have ev: "events w' = events w @ [Call args r]" by simp
  then have nc: "ncalls w' = ncalls w + 1" by (simp add: ncalls_def)
  have "cacheRequest (producer sc) ttl args (slot, w) =
          (r, (case r of Inl err \<Rightarrow> slot | Inr v \<Rightarrow> \<lparr>cache = v, timestamp = clock w\<rparr>), w')"
    using p by (simp add: cacheRequest_miss [OF miss] split: sum.splits)
  with p ev nc show ?thesis by blast
qed

theorem stale_or_absent_refreshes_witness:
  "truthy (cache fresh_slot) \<and> timestamp fresh_slot \<le> clock w0
   \<and> (\<exists>r w'. producer (always_returns (JStr ''new'')) [] w0 = (r, w')
          \<and> events w' = events w0 @ [Call [] r]
          \<and> ncalls w' = ncalls w0 + 1
          \<and> cacheRequest (producer (always_returns (JStr ''new''))) 0 [] (fresh_slot, w0) =
              (r, (case r of Inl err \<Rightarrow> fresh_slot | Inr v \<Rightarrow> \<lparr>cache = v, timestamp = clock w0\<rparr>), w'))"
proof -
  have h: "\<not> truthy (cache fresh_slot) \<or> (0::int) \<le> clock w0 - timestamp fresh_slot
      \<or> ((0::int) = 0 \<and> timestamp fresh_slot \<le> clock w0)"
    by (simp add: fresh_slot_def w0_def)
  have "\<exists>r w'. producer (always_returns (JStr ''new'')) [] w0 = (r, w')
          \<and> events w' = events w0 @ [Call [] r]
          \<and> ncalls w' = ncalls w0 + 1
          \<and> cacheRequest (producer (always_returns (JStr ''new''))) 0 [] (fresh_slot, w0) =
              (r, (case r of Inl err \<Rightarrow> fresh_slot | Inr v \<Rightarrow> \<lparr>cache = v, timestamp = clock w0\<rparr>), w')"
    using stale_or_absent_refreshes [where slot = fresh_slot and ttl = 0 and w = w0
      and sc = "always_returns (JStr ''new'')" and args = "[]"] h
    by blast
  moreover have "truthy (cache fresh_slot) \<and> timestamp fresh_slot \<le> clock w0"
    by (simp add: fresh_slot_def w0_def)
  ultimately show ?thesis by blast
qed

text \<open>
  Claim C10. Every call of the producer made by an invocation of the retry wrapper has
  the caller's argument list: the argument lists logged by the invocation are copies of
  \<open>args\<close>. On a miss the cache wrapper calls the wrapped function once, on \<open>args\<close> and
  the world of the caller, and returns its outcome.
\<close>

theorem arguments_forwarded:
  "call_args_of (events (snd (retryRequest (producer sc) n baseDelay args w))) =
     call_args_of (events w)
       @ replicate (ncalls (snd (retryRequest (producer sc) n baseDelay args w)) - ncalls w) args
   \<and> (\<not> (truthy (cache slot) \<and> clock w - timestamp slot < ttl) \<longrightarrow>
        fst (cacheRequest fn ttl args (slot, w)) = fst (fn args w)
        \<and> snd (snd (cacheRequest fn ttl args (slot, w))) = snd (fn args w)
        \<and> events (snd (snd (cacheRequest (producer sc) ttl args (slot, w)))) =
            events w @ [Call args (fst (sc (ncalls w) args))])"
proof (intro conjI impI)
  show "call_args_of (events (snd (retryRequest (producer sc) n baseDelay args w))) =
     call_args_of (events w)
       @ replicate (ncalls (snd (retryRequest (producer sc) n baseDelay args w)) - ncalls w) args"
  proof (cases "1 \<le> n")
    case True
    from retry_run_shape [OF True, of sc w args baseDelay] obtain k w' where
      run: "retryRequest (producer sc) n baseDelay args w =
              (case fst (sc (ncalls w + k) args) of
                 Inl err \<Rightarrow> Inl (Error (failed_msg n err)) | Inr v \<Rightarrow> Inr v, w')"
      and ev: "events w' = events w @ failed_attempts sc baseDelay args (ncalls w) k
                          @ [Call args (fst (sc (ncalls w + k) args))]"
      by blast
    from ev have nc: "ncalls w' = ncalls w + Suc k"
      by (simp add: ncalls_def filter_Call_failed_attempts)
    have "call_args_of (events w') = call_args_of (events w) @ replicate k args @ [args]"
      using call_args_failed_attempts [of sc baseDelay args "ncalls w" k]
      by (simp add: ev call_args_of_def)
    then have "call_args_of (events w') = call_args_of (events w) @ replicate (Suc k) args"
      by (simp add: replicate_append_same)
    with run nc show ?thesis by simp
  next
    case False
    then have "retryRequest (producer sc) n baseDelay args w = (Inr JUndefined, w)"
      by (simp add: retryRequest_def retry_loop_exit)
    then show ?thesis by simp
  qed
next
  assume miss: "\<not> (truthy (cache slot) \<and> clock w - timestamp slot < ttl)"
  show "fst (cacheRequest fn ttl args (slot, w)) = fst (fn args w)"
    unfolding cacheRequest_miss [OF miss] by (simp split: prod.splits sum.splits)
  show "snd (snd (cacheRequest fn ttl args (slot, w))) = snd (fn args w)"
    unfolding cacheRequest_miss [OF miss] by (simp split: prod.splits sum.splits)
  show "events (snd (snd (cacheRequest (producer sc) ttl args (slot, w)))) =
            events w @ [Call args (fst (sc (ncalls w) args))]"
    unfolding cacheRequest_miss [OF miss]
    by (simp add: producer_def split: prod.splits sum.splits)
qed

theorem arguments_forwarded_witness:
  "call_args_of (events (snd (retryRequest (producer fails_twice) 3 300 [JNum 7] w0))) =
     call_args_of (events w0)
       @ replicate (ncalls (snd (retryRequest (producer fails_twice) 3 300 [JNum 7] w0)) - ncalls w0) [JNum 7]
   \<and> \<not> (truthy (cache stale_slot) \<and> clock w0 - timestamp stale_slot < 5000)
   \<and> events (snd (snd (cacheRequest (producer fails_twice) 5000 [JNum 7] (stale_slot, w0)))) =
            events w0 @ [Call [JNum 7] (fst (fails_twice (ncalls w0) [JNum 7]))]"
proof -
  have h: "\<not> (truthy (cache stale_slot) \<and> clock w0 - timestamp stale_slot < 5000)"
    by (simp add: stale_slot_def w0_def)
  from arguments_forwarded [of fails_twice 3 300 "[JNum 7]" w0 stale_slot 5000 "producer fails_twice"] h
  show ?thesis by blast
qed

end
